theory Spec2Isabelle
  imports Complex_Main
begin

section \<open>Python values used by the model selectors\<close>

text \<open>
  The selectors of \<^verbatim>\<open>my_model_selectors.py\<close> work on log-likelihoods, which are
  Python floats. A finite float is modelled by the real number it stands for (rounding
  and overflow are not modelled); the three special values are kept, because the search
  loops start from \<^verbatim>\<open>float("Inf")\<close> and \<^verbatim>\<open>-math.inf\<close> and every comparison with
  \<^verbatim>\<open>nan\<close> is false.
\<close>

datatype pyfloat = NaN | NInf | Fin real | PInf

text \<open>Every \<^verbatim>\<open>raise\<close> of the source and of its collaborators is a value.\<close>

datatype exn =
    ValueError
  | AttributeError
  | UnboundLocalError
  | ZeroDivisionError
  | IndexError
  | KeyError
  | NotFittedError
  | TrainerError

text \<open>\<^verbatim>\<open>a < b\<close> on floats.\<close>

fun flt :: "pyfloat \<Rightarrow> pyfloat \<Rightarrow> bool" where
  "flt (Fin x) (Fin y) = (x < y)"
| "flt NInf (Fin y) = True"
| "flt NInf PInf = True"
| "flt (Fin x) PInf = True"
| "flt _ _ = False"

text \<open>\<^verbatim>\<open>a > b\<close> on floats.\<close>

definition fgt :: "pyfloat \<Rightarrow> pyfloat \<Rightarrow> bool" where
  "fgt a b = flt b a"

fun fneg :: "pyfloat \<Rightarrow> pyfloat" where
  "fneg NaN = NaN"
| "fneg NInf = PInf"
| "fneg (Fin x) = Fin (- x)"
| "fneg PInf = NInf"

fun fadd :: "pyfloat \<Rightarrow> pyfloat \<Rightarrow> pyfloat" where
  "fadd (Fin x) (Fin y) = Fin (x + y)"
| "fadd NaN _ = NaN"
| "fadd _ NaN = NaN"
| "fadd PInf NInf = NaN"
| "fadd NInf PInf = NaN"
| "fadd PInf _ = PInf"
| "fadd _ PInf = PInf"
| "fadd NInf _ = NInf"
| "fadd _ NInf = NInf"

definition fsub :: "pyfloat \<Rightarrow> pyfloat \<Rightarrow> pyfloat" where
  "fsub a b = fadd a (fneg b)"

fun fmul :: "pyfloat \<Rightarrow> pyfloat \<Rightarrow> pyfloat" where
  "fmul (Fin x) (Fin y) = Fin (x * y)"
| "fmul NaN _ = NaN"
| "fmul _ NaN = NaN"
| "fmul (Fin x) PInf = (if x = 0 then NaN else if 0 < x then PInf else NInf)"
| "fmul (Fin x) NInf = (if x = 0 then NaN else if 0 < x then NInf else PInf)"
| "fmul PInf (Fin y) = (if y = 0 then NaN else if 0 < y then PInf else NInf)"
| "fmul NInf (Fin y) = (if y = 0 then NaN else if 0 < y then NInf else PInf)"
| "fmul PInf PInf = PInf"
| "fmul PInf NInf = NInf"
| "fmul NInf PInf = NInf"
| "fmul NInf NInf = PInf"

text \<open>A float divided by a finite divisor other than zero.\<close>

fun fdivr :: "pyfloat \<Rightarrow> real \<Rightarrow> pyfloat" where
  "fdivr NaN d = NaN"
| "fdivr (Fin x) d = Fin (x / d)"
| "fdivr PInf d = (if 0 < d then PInf else NInf)"
| "fdivr NInf d = (if 0 < d then NInf else PInf)"

text \<open>Python's \<^verbatim>\<open>x / d\<close> with an integer divisor: a zero divisor raises.\<close>

definition truediv :: "pyfloat \<Rightarrow> int \<Rightarrow> exn + pyfloat" where
  "truediv x d = (if d = 0 then Inl ZeroDivisionError else Inr (fdivr x (real_of_int d)))"

text \<open>\<^verbatim>\<open>sc = 0; for ...: sc += x\<close>, the running sum from the left.\<close>

definition fsum :: "pyfloat list \<Rightarrow> pyfloat" where
  "fsum xs = foldl fadd (Fin 0) xs"

text \<open>\<^verbatim>\<open>np.mean(scores)\<close>: the sum over the count; \<^verbatim>\<open>nan\<close> on an empty list.\<close>

definition np_mean :: "pyfloat list \<Rightarrow> pyfloat" where
  "np_mean xs = (if xs = [] then NaN else fdivr (fsum xs) (real (length xs)))"

text \<open>\<^verbatim>\<open>math.log(k)\<close> of a length \<open>k\<close>: \<^verbatim>\<open>math.log(0)\<close> raises ValueError.\<close>

definition math_log :: "nat \<Rightarrow> exn + pyfloat" where
  "math_log k = (if k = 0 then Inl ValueError else Inr (Fin (ln (real k))))"

section \<open>The collaborators: hmmlearn's GaussianHMM, the sequence combiner, KFold\<close>

text \<open>
  Observations handed to the trainer are a pair \<^verbatim>\<open>(X, lengths)\<close>: the frames of
  several utterances one after the other, and the length of each utterance.
  \<open>'f\<close> is the type of one frame (a feature vector).
\<close>

type_synonym 'f Xlengths = "'f list \<times> nat list"

text \<open>
  The trainer is a parameter of the whole development. \<open>em_fit n seed d\<close> is what
  \<^verbatim>\<open>GaussianHMM(n_components=n, covariance_type="diag", n_iter=1000, random_state=seed).fit(X, lengths)\<close>
  learns (the parameters \<open>'p\<close>) or the exception it raises; \<open>log_likelihood p d\<close> is
  what \<^verbatim>\<open>score\<close> returns for learnt parameters, or the exception it raises;
  \<open>features p\<close> is the attribute \<^verbatim>\<open>n_features\<close> that fitting sets. With a fixed seed
  the trainer is a function of its arguments.
\<close>

record ('f, 'p) hmmlearn =
  em_fit :: "int \<Rightarrow> int \<Rightarrow> 'f Xlengths \<Rightarrow> exn + 'p"
  log_likelihood :: "'p \<Rightarrow> 'f Xlengths \<Rightarrow> exn + pyfloat"
  features :: "'p \<Rightarrow> int"

text \<open>
  A \<^verbatim>\<open>GaussianHMM\<close> object: its constructor arguments that vary in the source, and the
  learnt parameters (\<open>None\<close> until a call of \<^verbatim>\<open>fit\<close> has returned).
\<close>

record 'p GaussianHMM =
  n_components :: int
  hmm_random_state :: int
  hmm_verbose :: bool
  params :: "'p option"

definition new_GaussianHMM :: "int \<Rightarrow> int \<Rightarrow> bool \<Rightarrow> 'p GaussianHMM" where
  "new_GaussianHMM n seed v =
     \<lparr>n_components = n, hmm_random_state = seed, hmm_verbose = v, params = None\<rparr>"

text \<open>\<^verbatim>\<open>hmm.fit(X, lengths)\<close>: returns the object itself, fitted, or raises.\<close>

definition fit :: "('f, 'p) hmmlearn \<Rightarrow> 'p GaussianHMM \<Rightarrow> 'f Xlengths \<Rightarrow> exn + 'p GaussianHMM" where
  "fit T hmm d =
     (case em_fit T (n_components hmm) (hmm_random_state hmm) d of
        Inl e \<Rightarrow> Inl e
      | Inr p \<Rightarrow> Inr (hmm\<lparr>params := Some p\<rparr>))"

text \<open>\<^verbatim>\<open>hmm.score(X, lengths)\<close>: a model that was never fitted raises.\<close>

definition score :: "('f, 'p) hmmlearn \<Rightarrow> 'p GaussianHMM \<Rightarrow> 'f Xlengths \<Rightarrow> exn + pyfloat" where
  "score T hmm d =
     (case params hmm of
        None \<Rightarrow> Inl NotFittedError
      | Some p \<Rightarrow> log_likelihood T p d)"

text \<open>\<^verbatim>\<open>hmm.n_features\<close>: the attribute exists once the model is fitted.\<close>

definition n_features :: "('f, 'p) hmmlearn \<Rightarrow> 'p GaussianHMM \<Rightarrow> exn + int" where
  "n_features T hmm =
     (case params hmm of
        None \<Rightarrow> Inl AttributeError
      | Some p \<Rightarrow> Inr (features T p))"

text \<open>
  Modelled from the spec: \<^verbatim>\<open>asl_utils.combine_sequences\<close> is imported by the source
  and its file is not part of it. The spec's sequence combiner takes utterance indices
  and the word's sequences and gives the frames of the chosen utterances, in order, as
  one flattened list, with one length per index. An index outside the list raises
  IndexError, as Python's list indexing does.
\<close>

definition combine_sequences :: "nat list \<Rightarrow> 'f list list \<Rightarrow> exn + 'f Xlengths" where
  "combine_sequences split_index_list seqs =
     (if list_all (\<lambda>i. i < length seqs) split_index_list
      then Inr (concat (map (\<lambda>i. seqs ! i) split_index_list),
                map (\<lambda>i. length (seqs ! i)) split_index_list)
      else Inl IndexError)"

section \<open>ModelSelector\<close>

text \<open>
  The fields of the base class. The two dictionaries are association lists in
  insertion order; \<^verbatim>\<open>self.X, self.lengths\<close> are the fields \<open>X\<close> and \<open>lengths\<close>.
\<close>

record 'f ModelSelector =
  words :: "(string \<times> 'f list list) list"
  hwords :: "(string \<times> 'f Xlengths) list"
  sequences :: "'f list list"
  X :: "'f list"
  lengths :: "nat list"
  this_word :: string
  n_constant :: int
  min_n_components :: int
  max_n_components :: int
  random_state :: int
  verbose :: bool

text \<open>\<^verbatim>\<open>ModelSelector.__init__\<close>: a word missing from a dictionary raises KeyError.\<close>

definition init ::
  "(string \<times> 'f list list) list \<Rightarrow> (string \<times> 'f Xlengths) list \<Rightarrow> string \<Rightarrow>
   int \<Rightarrow> int \<Rightarrow> int \<Rightarrow> int \<Rightarrow> bool \<Rightarrow> exn + 'f ModelSelector" where
  "init all_word_sequences all_word_Xlengths word nc mn mx seed v =
     (case map_of all_word_sequences word of
        None \<Rightarrow> Inl KeyError
      | Some seqs \<Rightarrow>
          (case map_of all_word_Xlengths word of
             None \<Rightarrow> Inl KeyError
           | Some (x, l) \<Rightarrow>
               Inr \<lparr>words = all_word_sequences, hwords = all_word_Xlengths,
                    sequences = seqs, X = x, lengths = l, this_word = word,
                    n_constant = nc, min_n_components = mn, max_n_components = mx,
                    random_state = seed, verbose = v\<rparr>))"

text \<open>
  \<^verbatim>\<open>base_model\<close>: fit a model on \<^verbatim>\<open>self.X, self.lengths\<close>; the bare \<^verbatim>\<open>except\<close>
  turns every exception into \<^verbatim>\<open>None\<close>. Printing is not modelled.
\<close>

definition base_model :: "('f, 'p) hmmlearn \<Rightarrow> 'f ModelSelector \<Rightarrow> int \<Rightarrow> 'p GaussianHMM option" where
  "base_model T s num_states =
     (case fit T (new_GaussianHMM num_states (random_state s) False) (X s, lengths s) of
        Inl e \<Rightarrow> None
      | Inr hmm_model \<Rightarrow> Some hmm_model)"

section \<open>SelectorConstant\<close>

definition select_Constant :: "('f, 'p) hmmlearn \<Rightarrow> 'f ModelSelector \<Rightarrow> 'p GaussianHMM option" where
  "select_Constant T s = base_model T s (n_constant s)"

section \<open>SelectorBIC\<close>

text \<open>
  \<^verbatim>\<open>get_model_score\<close>. The operands are evaluated left to right, so the exceptions come
  in this order: \<^verbatim>\<open>base_model\<close> gave \<^verbatim>\<open>None\<close> (the call \<^verbatim>\<open>model.score\<close> raises
  AttributeError), \<^verbatim>\<open>score\<close> raises, \<^verbatim>\<open>math.log(0)\<close> raises.
\<close>

definition all_indices :: "'f ModelSelector \<Rightarrow> nat list" where
  "all_indices s = [0..<length (sequences s)]"

definition get_model_score :: "('f, 'p) hmmlearn \<Rightarrow> 'f ModelSelector \<Rightarrow> int \<Rightarrow> exn + pyfloat" where
  "get_model_score T s n =
     (case combine_sequences (all_indices s) (sequences s) of
        Inl e \<Rightarrow> Inl e
      | Inr Xl \<Rightarrow>
          (case base_model T s n of
             None \<Rightarrow> Inl AttributeError
           | Some model \<Rightarrow>
               (case score T model Xl of
                  Inl e \<Rightarrow> Inl e
                | Inr L \<Rightarrow>
                    (case n_features T model of
                       Inl e \<Rightarrow> Inl e
                     | Inr D \<Rightarrow>
                         (case math_log (length (sequences s)) of
                            Inl e \<Rightarrow> Inl e
                          | Inr lg \<Rightarrow>
                              Inr (fadd (fmul (Fin (- 2)) L)
                                        (fmul (Fin (real_of_int (n\<^sup>2 + 2 * n * D - 1))) lg)))))))"

text \<open>
  The body of the \<^verbatim>\<open>try\<close> in \<^verbatim>\<open>SelectorBIC.select\<close>: the loop over the candidates
  and the final \<^verbatim>\<open>return model\<close>. The local \<^verbatim>\<open>model\<close> is unbound (\<open>None\<close>) until the
  first assignment, and bound to what \<^verbatim>\<open>base_model\<close> returned afterwards (which may be
  Python's \<^verbatim>\<open>None\<close>). The selector is threaded through, because the loop assigns
  \<^verbatim>\<open>self.X, self.lengths\<close>; an exception leaves the loop with the selector as it is then.
\<close>

fun bic_loop ::
  "('f, 'p) hmmlearn \<Rightarrow> 'f ModelSelector \<Rightarrow> pyfloat \<Rightarrow> 'p GaussianHMM option option \<Rightarrow>
   int list \<Rightarrow> 'f ModelSelector \<times> (exn + 'p GaussianHMM option)" where
  "bic_loop T s best_score_so_far model [] =
     (s, case model of None \<Rightarrow> Inl UnboundLocalError | Some m \<Rightarrow> Inr m)"
| "bic_loop T s best_score_so_far model (n_comp # rest) =
     (case get_model_score T s n_comp of
        Inl e \<Rightarrow> (s, Inl e)
      | Inr model_score \<Rightarrow>
          if flt model_score best_score_so_far then
            (case combine_sequences (all_indices s) (sequences s) of
               Inl e \<Rightarrow> (s, Inl e)
             | Inr (X', lengths') \<Rightarrow>
                 bic_loop T (s\<lparr>X := X', lengths := lengths'\<rparr>) model_score
                   (Some (base_model T (s\<lparr>X := X', lengths := lengths'\<rparr>) n_comp)) rest)
          else bic_loop T s best_score_so_far model rest)"

text \<open>
  \<^verbatim>\<open>SelectorBIC.select\<close>: the \<^verbatim>\<open>try\<close> is around the whole loop; \<^verbatim>\<open>except Exception\<close>
  answers with \<^verbatim>\<open>base_model(n_constant)\<close> on the selector as the loop left it.
  The result is the selector after the call and the value returned.
\<close>

definition select_BIC ::
  "('f, 'p) hmmlearn \<Rightarrow> 'f ModelSelector \<Rightarrow> 'f ModelSelector \<times> 'p GaussianHMM option" where
  "select_BIC T s =
     (case bic_loop T s PInf None [min_n_components s..max_n_components s] of
        (s', Inr m) \<Rightarrow> (s', m)
      | (s', Inl e) \<Rightarrow> (s', base_model T s' (n_constant s')))"

section \<open>SelectorDIC\<close>

text \<open>
  The inner loop of \<^verbatim>\<open>SelectorDIC.select\<close>: the scores the fitted model gives to the
  data of every word of \<^verbatim>\<open>self.hwords\<close> other than \<^verbatim>\<open>self.this_word\<close>, added to
  \<^verbatim>\<open>sc\<close> in the order of the dictionary.
\<close>

fun others_sum ::
  "('f, 'p) hmmlearn \<Rightarrow> 'p GaussianHMM \<Rightarrow> string \<Rightarrow> pyfloat \<Rightarrow>
   (string \<times> 'f Xlengths) list \<Rightarrow> exn + pyfloat" where
  "others_sum T hmm_model word sc [] = Inr sc"
| "others_sum T hmm_model word sc ((w, xl) # rest) =
     (if w \<noteq> word then
        (case score T hmm_model xl of
           Inl e \<Rightarrow> Inl e
         | Inr v \<Rightarrow> others_sum T hmm_model word (fadd sc v) rest)
      else others_sum T hmm_model word sc rest)"

text \<open>
  The body of the \<^verbatim>\<open>try\<close> for one candidate \<^verbatim>\<open>nc\<close>, up to the value of \<^verbatim>\<open>dic\<close>:
  the result is \<^verbatim>\<open>dic\<close> and the fitted model, or the exception that the bare
  \<^verbatim>\<open>except\<close> will swallow.
\<close>

definition dic_try ::
  "('f, 'p) hmmlearn \<Rightarrow> 'f ModelSelector \<Rightarrow> int \<Rightarrow> exn + (pyfloat \<times> 'p GaussianHMM)" where
  "dic_try T s nc =
     (case fit T (new_GaussianHMM nc (random_state s) (verbose s)) (X s, lengths s) of
        Inl e \<Rightarrow> Inl e
      | Inr hmm_model \<Rightarrow>
          (case score T hmm_model (X s, lengths s) of
             Inl e \<Rightarrow> Inl e
           | Inr logL \<Rightarrow>
               (case others_sum T hmm_model (this_word s) (Fin 0) (hwords s) of
                  Inl e \<Rightarrow> Inl e
                | Inr sc \<Rightarrow>
                    (case truediv sc (int (length (hwords s)) - 1) of
                       Inl e \<Rightarrow> Inl e
                     | Inr mean_other_words \<Rightarrow> Inr (fsub logL mean_other_words, hmm_model)))))"

fun dic_loop ::
  "('f, 'p) hmmlearn \<Rightarrow> 'f ModelSelector \<Rightarrow> pyfloat \<Rightarrow> 'p GaussianHMM option \<Rightarrow>
   int list \<Rightarrow> 'p GaussianHMM option" where
  "dic_loop T s l model [] = model"
| "dic_loop T s l model (nc # rest) =
     (case dic_try T s nc of
        Inl e \<Rightarrow> dic_loop T s l model rest
      | Inr (dic, hmm_model) \<Rightarrow>
          if fgt dic l then dic_loop T s dic (Some hmm_model) rest
          else dic_loop T s l model rest)"

definition select_DIC :: "('f, 'p) hmmlearn \<Rightarrow> 'f ModelSelector \<Rightarrow> 'p GaussianHMM option" where
  "select_DIC T s = dic_loop T s NInf None [min_n_components s..max_n_components s]"

section \<open>SelectorCV\<close>

text \<open>
  scikit-learn's \<^verbatim>\<open>KFold(n_splits).split(sequences)\<close> without shuffling, as its
  documentation has it: more splits than samples raise ValueError; otherwise the
  first \<^verbatim>\<open>n_samples % n_splits\<close> folds have \<^verbatim>\<open>n_samples // n_splits + 1\<close> consecutive
  indices and the others \<^verbatim>\<open>n_samples // n_splits\<close>; each fold is the test set once and
  the indices outside it are the training set. The result lists the pairs
  \<^verbatim>\<open>(train, test)\<close>.
\<close>

definition fold_sizes :: "nat \<Rightarrow> nat \<Rightarrow> nat list" where
  "fold_sizes n_splits n_samples =
     map (\<lambda>i. n_samples div n_splits + (if i < n_samples mod n_splits then 1 else 0))
       [0..<n_splits]"

fun test_folds :: "nat \<Rightarrow> nat list \<Rightarrow> nat list list" where
  "test_folds current [] = []"
| "test_folds current (fold_size # rest) =
     [current..<current + fold_size] # test_folds (current + fold_size) rest"

definition KFold_split :: "nat \<Rightarrow> nat \<Rightarrow> exn + (nat list \<times> nat list) list" where
  "KFold_split n_splits n_samples =
     (if n_samples < n_splits then Inl ValueError
      else Inr (map (\<lambda>test. (filter (\<lambda>i. i \<notin> set test) [0..<n_samples], test))
                  (test_folds 0 (fold_sizes n_splits n_samples))))"

text \<open>\<^verbatim>\<open>n_split = 2 if len(self.sequences) < 3 else 3\<close>\<close>

definition n_split :: "'f ModelSelector \<Rightarrow> nat" where
  "n_split s = (if length (sequences s) < 3 then 2 else 3)"

text \<open>
  One pass through the body of the \<^verbatim>\<open>for\<close> of \<^verbatim>\<open>avg_score\<close>, on the locals
  \<^verbatim>\<open>scores\<close> and \<^verbatim>\<open>hmm_model\<close>. The two calls of the combiner stand before the
  \<^verbatim>\<open>try\<close>, so their exception leaves the method. Inside the \<^verbatim>\<open>try\<close>, the new object
  is assigned to \<^verbatim>\<open>hmm_model\<close> before \<^verbatim>\<open>fit\<close> is called on it: when \<^verbatim>\<open>fit\<close> raises,
  \<^verbatim>\<open>hmm_model\<close> is that object, without learnt parameters; when \<^verbatim>\<open>score\<close> raises, it
  is the fitted object and nothing is appended to \<^verbatim>\<open>scores\<close>.
\<close>

definition cv_fold ::
  "('f, 'p) hmmlearn \<Rightarrow> 'f ModelSelector \<Rightarrow> int \<Rightarrow> pyfloat list \<times> 'p GaussianHMM option \<Rightarrow>
   nat list \<times> nat list \<Rightarrow> exn + (pyfloat list \<times> 'p GaussianHMM option)" where
  "cv_fold T s n_comp acc idx =
     (case combine_sequences (fst idx) (sequences s) of
        Inl e \<Rightarrow> Inl e
      | Inr train \<Rightarrow>
          (case combine_sequences (snd idx) (sequences s) of
             Inl e \<Rightarrow> Inl e
           | Inr test \<Rightarrow>
               (case fit T (new_GaussianHMM n_comp (random_state s) (verbose s)) train of
                  Inl e \<Rightarrow> Inr (fst acc, Some (new_GaussianHMM n_comp (random_state s) (verbose s)))
                | Inr hmm_model \<Rightarrow>
                    (case score T hmm_model test of
                       Inl e \<Rightarrow> Inr (fst acc, Some hmm_model)
                     | Inr v \<Rightarrow> Inr (fst acc @ [v], Some hmm_model)))))"

fun cv_folds ::
  "('f, 'p) hmmlearn \<Rightarrow> 'f ModelSelector \<Rightarrow> int \<Rightarrow> pyfloat list \<times> 'p GaussianHMM option \<Rightarrow>
   (nat list \<times> nat list) list \<Rightarrow> exn + (pyfloat list \<times> 'p GaussianHMM option)" where
  "cv_folds T s n_comp acc [] = Inr acc"
| "cv_folds T s n_comp acc (idx # rest) =
     (case cv_fold T s n_comp acc idx of
        Inl e \<Rightarrow> Inl e
      | Inr acc' \<Rightarrow> cv_folds T s n_comp acc' rest)"

text \<open>
  \<^verbatim>\<open>avg_score\<close>: \<^verbatim>\<open>split\<close> is called in the head of the \<^verbatim>\<open>for\<close>, outside every
  \<^verbatim>\<open>try\<close>.
\<close>

definition avg_score ::
  "('f, 'p) hmmlearn \<Rightarrow> 'f ModelSelector \<Rightarrow> int \<Rightarrow> exn + (pyfloat \<times> 'p GaussianHMM option)" where
  "avg_score T s n_comp =
     (case KFold_split (n_split s) (length (sequences s)) of
        Inl e \<Rightarrow> Inl e
      | Inr folds \<Rightarrow>
          (case cv_folds T s n_comp ([], None) folds of
             Inl e \<Rightarrow> Inl e
           | Inr (scores, hmm_model) \<Rightarrow>
               Inr (if scores \<noteq> [] then np_mean scores else NInf, hmm_model)))"

fun cv_loop ::
  "('f, 'p) hmmlearn \<Rightarrow> 'f ModelSelector \<Rightarrow> 'p GaussianHMM option \<Rightarrow> pyfloat \<Rightarrow>
   int list \<Rightarrow> exn + 'p GaussianHMM option" where
  "cv_loop T s model lowest_score [] = Inr model"
| "cv_loop T s model lowest_score (n_comp # rest) =
     (case avg_score T s n_comp of
        Inl e \<Rightarrow> Inl e
      | Inr (sc, hmm_model) \<Rightarrow>
          if fgt sc lowest_score then cv_loop T s hmm_model sc rest
          else cv_loop T s model lowest_score rest)"

definition select_CV :: "('f, 'p) hmmlearn \<Rightarrow> 'f ModelSelector \<Rightarrow> exn + 'p GaussianHMM option" where
  "select_CV T s = cv_loop T s None NInf [min_n_components s..max_n_components s]"

section \<open>A small trainer and a small data set for concrete runs\<close>

text \<open>
  Frames are natural numbers and the learnt parameters are the state count. The
  trainer fails where \<open>bad\<close> says so; the log-likelihood is given by \<open>ll\<close>; every model
  has one feature.
\<close>

definition demo_trainer ::
  "(int \<Rightarrow> nat Xlengths \<Rightarrow> bool) \<Rightarrow> (int \<Rightarrow> nat Xlengths \<Rightarrow> pyfloat) \<Rightarrow> (nat, int) hmmlearn" where
  "demo_trainer bad ll =
     \<lparr>em_fit = (\<lambda>n seed d. if bad n d then Inl TrainerError else Inr n),
      log_likelihood = (\<lambda>p d. Inr (ll p d)),
      features = (\<lambda>p. 1)\<rparr>"

text \<open>
  A selector for one word with the utterances \<open>seqs\<close>, whose flat data are the
  combination of all of them, in an index that has this word and the words of \<open>other_words\<close>.
\<close>

definition demo_selector ::
  "nat list list \<Rightarrow> (string \<times> nat Xlengths) list \<Rightarrow> int \<Rightarrow> int \<Rightarrow> int \<Rightarrow> nat ModelSelector" where
  "demo_selector seqs other_words nc mn mx =
     \<lparr>words = [(''FISH'', seqs)],
      hwords = (''FISH'', (concat seqs, map length seqs)) # other_words,
      sequences = seqs, X = concat seqs, lengths = map length seqs, this_word = ''FISH'',
      n_constant = nc, min_n_components = mn, max_n_components = mx,
      random_state = 14, verbose = False\<rparr>"

section \<open>Notions used to state the properties\<close>

text \<open>
  The data model wants the flat index consistent with the sequence index: the selector's
  \<^verbatim>\<open>self.X, self.lengths\<close> are the combination of all of the word's sequences.
\<close>

definition consistent :: "'f ModelSelector \<Rightarrow> bool" where
  "consistent s = (X s = concat (sequences s) \<and> lengths s = map length (sequences s))"

text \<open>
  BIC computed again from a model alone: its log-likelihood on the word's combined
  sequences, its own state count and its feature count.
\<close>

definition recomputed_BIC :: "('f, 'p) hmmlearn \<Rightarrow> 'f ModelSelector \<Rightarrow> 'p GaussianHMM \<Rightarrow> exn + pyfloat" where
  "recomputed_BIC T s model =
     (case score T model (concat (sequences s), map length (sequences s)) of
        Inl e \<Rightarrow> Inl e
      | Inr L \<Rightarrow>
          (case n_features T model of
             Inl e \<Rightarrow> Inl e
           | Inr D \<Rightarrow>
               (case math_log (length (sequences s)) of
                  Inl e \<Rightarrow> Inl e
                | Inr lg \<Rightarrow>
                    Inr (fadd (fmul (Fin (- 2)) L)
                          (fmul (Fin (real_of_int ((n_components model)\<^sup>2
                                   + 2 * n_components model * D - 1))) lg)))))"

text \<open>The entries of \<^verbatim>\<open>self.hwords\<close> for the words other than \<^verbatim>\<open>self.this_word\<close>.\<close>

definition other_words :: "'f ModelSelector \<Rightarrow> (string \<times> 'f Xlengths) list" where
  "other_words s = filter (\<lambda>wx. fst wx \<noteq> this_word s) (hwords s)"

text \<open>
  What one fold gives for a candidate: the log-likelihood of the held-out sequences under
  the model fitted on the training sequences, or the exception of the fit or of the score.
\<close>

definition fold_outcome ::
  "('f, 'p) hmmlearn \<Rightarrow> 'f ModelSelector \<Rightarrow> int \<Rightarrow> nat list \<times> nat list \<Rightarrow> exn + pyfloat" where
  "fold_outcome T s n_comp idx =
     (case combine_sequences (fst idx) (sequences s) of
        Inl e \<Rightarrow> Inl e
      | Inr train \<Rightarrow>
          (case combine_sequences (snd idx) (sequences s) of
             Inl e \<Rightarrow> Inl e
           | Inr test \<Rightarrow>
               (case fit T (new_GaussianHMM n_comp (random_state s) (verbose s)) train of
                  Inl e \<Rightarrow> Inl e
                | Inr hmm_model \<Rightarrow> score T hmm_model test)))"

text \<open>The scores of the folds that succeed, in the order of the folds.\<close>

definition fold_scores ::
  "('f, 'p) hmmlearn \<Rightarrow> 'f ModelSelector \<Rightarrow> int \<Rightarrow> (nat list \<times> nat list) list \<Rightarrow> pyfloat list" where
  "fold_scores T s n_comp folds =
     List.map_filter (\<lambda>idx. case fold_outcome T s n_comp idx of Inl e \<Rightarrow> None | Inr v \<Rightarrow> Some v) folds"

text \<open>A fold whose indices are all indices of the word's sequences.\<close>

definition valid_fold :: "'f ModelSelector \<Rightarrow> nat list \<times> nat list \<Rightarrow> bool" where
  "valid_fold s idx =
     (list_all (\<lambda>i. i < length (sequences s)) (fst idx) \<and>
      list_all (\<lambda>i. i < length (sequences s)) (snd idx))"

section \<open>Properties\<close>

subsection \<open>Shared facts\<close>

lemma combine_all:
  "combine_sequences (all_indices s) (sequences s) =
     Inr (concat (sequences s), map length (sequences s))"
proof -
  have "map (\<lambda>i. length (sequences s ! i)) [0..<length (sequences s)] = map length (sequences s)"
    by (rule nth_equalityI) simp_all
  then show ?thesis
    by (simp add: combine_sequences_def all_indices_def list_all_iff map_nth)
qed

lemma base_model_Some:
  "base_model T s n = Some model \<Longrightarrow>
     \<exists>p. em_fit T n (random_state s) (X s, lengths s) = Inr p \<and>
         model = \<lparr>n_components = n, hmm_random_state = random_state s, hmm_verbose = False,
                  params = Some p\<rparr>"
  by (auto simp: base_model_def fit_def new_GaussianHMM_def split: sum.splits)

lemma consistent_update:
  "consistent s \<Longrightarrow> s\<lparr>X := concat (sequences s), lengths := map length (sequences s)\<rparr> = s"
  by (simp add: consistent_def)

lemma get_model_score_Inr:
  assumes "get_model_score T s n = Inr v"
  shows "\<exists>m. base_model T s n = Some m \<and> n_components m = n \<and> recomputed_BIC T s m = Inr v"
proof -
  from assms obtain m where m: "base_model T s n = Some m"
    by (auto simp: get_model_score_def combine_all split: option.splits)
  then have n: "n_components m = n"
    by (auto dest: base_model_Some)
  from assms m n have "recomputed_BIC T s m = Inr v"
    by (auto simp: get_model_score_def combine_all recomputed_BIC_def split: sum.splits)
  with m n show ?thesis by blast
qed

lemma flt_Fin_trans: "flt (Fin a) (Fin b) \<Longrightarrow> flt (Fin b) c \<Longrightarrow> flt (Fin a) c"
  by (cases c) auto

lemma flt_Fin_between: "flt (Fin a) c \<Longrightarrow> \<not> flt (Fin b) c \<Longrightarrow> a < b"
  by (cases c) auto

lemma upto_2_3: "[2..3::int] = [2, 3]"
  by (simp add: upto.simps)

lemma upto_2_4: "[2..4::int] = [2, 3, 4]"
  by (simp add: upto.simps)

lemma bic_loop_failure:
  "consistent s \<Longrightarrow> n \<in> set ns \<Longrightarrow> get_model_score T s n = Inl e \<Longrightarrow>
     \<exists>e'. bic_loop T s best model ns = (s, Inl e')"
proof (induction ns arbitrary: best model)
  case Nil
  then show ?case by simp
next
  case (Cons a ns)
  show ?case
  proof (cases "get_model_score T s a")
    case (Inl e1)
    then show ?thesis by simp
  next
    case (Inr sc)
    with Cons.prems have "n \<in> set ns" by auto
    from Cons.IH [OF Cons.prems(1) this Cons.prems(3)]
    show ?thesis using Inr Cons.prems(1)
      by (simp add: combine_all consistent_update)
  qed
qed

lemma bic_loop_all_scored:
  assumes "consistent s"
    and "\<forall>n\<in>set ns. get_model_score T s n = Inr (Fin (b n))"
  shows "if \<exists>n\<in>set ns. flt (Fin (b n)) best
         then \<exists>k pre post. ns = pre @ k # post \<and> flt (Fin (b k)) best \<and>
                (\<forall>n\<in>set pre. b k < b n) \<and> (\<forall>n\<in>set post. b k \<le> b n) \<and>
                bic_loop T s best model ns = (s, Inr (base_model T s k))
         else bic_loop T s best model ns =
                (s, case model of None \<Rightarrow> Inl UnboundLocalError | Some m \<Rightarrow> Inr m)"
  using assms(2)
proof (induction ns arbitrary: best model)
  case Nil
  then show ?case by simp
next
  case (Cons a ns)
  have ga: "get_model_score T s a = Inr (Fin (b a))" and
    rest: "\<forall>n\<in>set ns. get_model_score T s n = Inr (Fin (b n))"
    using Cons.prems by simp_all
  note upd = consistent_update [OF assms(1)]
  show ?case
  proof (cases "flt (Fin (b a)) best")
    case True
    have step: "bic_loop T s best model (a # ns) =
        bic_loop T s (Fin (b a)) (Some (base_model T s a)) ns"
      using True ga by (simp add: combine_all upd)
    show ?thesis
    proof (cases "\<exists>n\<in>set ns. flt (Fin (b n)) (Fin (b a))")
      case ex: True
      with Cons.IH [OF rest, of "Fin (b a)" "Some (base_model T s a)"]
      obtain k pre post where k: "ns = pre @ k # post" "flt (Fin (b k)) (Fin (b a))"
        "\<forall>n\<in>set pre. b k < b n" "\<forall>n\<in>set post. b k \<le> b n"
        "bic_loop T s (Fin (b a)) (Some (base_model T s a)) ns = (s, Inr (base_model T s k))"
        by auto
      have "a # ns = (a # pre) @ k # post" using k(1) by simp
      moreover have "flt (Fin (b k)) best" using k(2) True by (rule flt_Fin_trans)
      moreover have "\<forall>n\<in>set (a # pre). b k < b n" using k(2,3) by simp
      moreover have "bic_loop T s best model (a # ns) = (s, Inr (base_model T s k))"
        using step k(5) by simp
      ultimately have "\<exists>k pre post. a # ns = pre @ k # post \<and> flt (Fin (b k)) best \<and>
                (\<forall>n\<in>set pre. b k < b n) \<and> (\<forall>n\<in>set post. b k \<le> b n) \<and>
                bic_loop T s best model (a # ns) = (s, Inr (base_model T s k))"
        using k(4) by blast
      moreover have "\<exists>n\<in>set (a # ns). flt (Fin (b n)) best" using True by simp
      ultimately show ?thesis by simp
    next
      case nex: False
      with Cons.IH [OF rest, of "Fin (b a)" "Some (base_model T s a)"]
      have "bic_loop T s (Fin (b a)) (Some (base_model T s a)) ns = (s, Inr (base_model T s a))"
        by simp
      with step have "bic_loop T s best model (a # ns) = (s, Inr (base_model T s a))" by simp
      moreover have "a # ns = [] @ a # ns" by simp
      moreover have "\<forall>n\<in>set ns. b a \<le> b n" using nex by (auto simp: not_less)
      ultimately have "\<exists>k pre post. a # ns = pre @ k # post \<and> flt (Fin (b k)) best \<and>
                (\<forall>n\<in>set pre. b k < b n) \<and> (\<forall>n\<in>set post. b k \<le> b n) \<and>
                bic_loop T s best model (a # ns) = (s, Inr (base_model T s k))"
        using True by (metis empty_iff list.set(1))
      moreover have "\<exists>n\<in>set (a # ns). flt (Fin (b n)) best" using True by simp
      ultimately show ?thesis by simp
    qed
  next
    case False
    have step: "bic_loop T s best model (a # ns) = bic_loop T s best model ns"
      using False ga by simp
    show ?thesis
    proof (cases "\<exists>n\<in>set ns. flt (Fin (b n)) best")
      case ex: True
      with Cons.IH [OF rest, of best model]
      obtain k pre post where k: "ns = pre @ k # post" "flt (Fin (b k)) best"
        "\<forall>n\<in>set pre. b k < b n" "\<forall>n\<in>set post. b k \<le> b n"
        "bic_loop T s best model ns = (s, Inr (base_model T s k))"
        by auto
      have "b k < b a" using k(2) False by (rule flt_Fin_between)
      then have "\<forall>n\<in>set (a # pre). b k < b n" using k(3) by simp
      moreover have "a # ns = (a # pre) @ k # post" using k(1) by simp
      moreover have "bic_loop T s best model (a # ns) = (s, Inr (base_model T s k))"
        using step k(5) by simp
      ultimately have "\<exists>k pre post. a # ns = pre @ k # post \<and> flt (Fin (b k)) best \<and>
                (\<forall>n\<in>set pre. b k < b n) \<and> (\<forall>n\<in>set post. b k \<le> b n) \<and>
                bic_loop T s best model (a # ns) = (s, Inr (base_model T s k))"
        using k(2,4) by blast
      moreover have "\<exists>n\<in>set (a # ns). flt (Fin (b n)) best" using ex by simp
      ultimately show ?thesis by simp
    next
      case nex: False
      with Cons.IH [OF rest, of best model] step False show ?thesis by simp
    qed
  qed
qed

lemma others_sum_scores:
  "map (\<lambda>wx. score T hmm (snd wx)) (filter (\<lambda>wx. fst wx \<noteq> word) hw) = map Inr scs \<Longrightarrow>
     others_sum T hmm word acc hw = Inr (foldl fadd acc scs)"
proof (induction hw arbitrary: acc scs)
  case Nil
  then show ?case by simp
next
  case (Cons wx hw)
  obtain w xl where wx: "wx = (w, xl)" by (cases wx)
  show ?case
  proof (cases "w = word")
    case True
    with Cons wx show ?thesis by simp
  next
    case False
    with Cons.prems wx obtain v rest where scs: "scs = v # rest" "score T hmm xl = Inr v"
      "map (\<lambda>wx. score T hmm (snd wx)) (filter (\<lambda>wx. fst wx \<noteq> word) hw) = map Inr rest"
      by (cases scs) auto
    from Cons.IH [OF scs(3), of "fadd acc v"] scs(1,2) wx False show ?thesis by simp
  qed
qed

lemma length_others:
  "distinct (map fst hw) \<Longrightarrow> word \<in> fst ` set hw \<Longrightarrow>
     Suc (length (filter (\<lambda>wx. fst wx \<noteq> word) hw)) = length hw"
proof (induction hw)
  case Nil
  then show ?case by simp
next
  case (Cons wx hw)
  show ?case
  proof (cases "fst wx = word")
    case True
    with Cons.prems have "word \<notin> fst ` set hw" by auto
    then have "filter (\<lambda>wx. fst wx \<noteq> word) hw = hw"
      by (intro filter_True) auto
    with True show ?thesis by simp
  next
    case False
    with Cons show ?thesis by auto
  qed
qed

lemma np_mean_single: "np_mean [x] = x"
  by (cases x) (simp_all add: np_mean_def fsum_def)

lemma dic_loop_all_fail:
  "\<forall>n\<in>set ns. \<exists>e. dic_try T s n = Inl e \<Longrightarrow> dic_loop T s l model ns = model"
  by (induction ns arbitrary: l model) auto

lemma others_sum_only_this:
  "map fst hw = [word] \<Longrightarrow> others_sum T hmm word acc hw = Inr acc"
  by (cases hw) auto

lemma length_fold_sizes: "length (fold_sizes k n) = k"
  by (simp add: fold_sizes_def)

lemma length_test_folds: "length (test_folds c szs) = length szs"
  by (induction szs arbitrary: c) simp_all

lemma concat_test_folds: "concat (test_folds c szs) = [c..<c + sum_list szs]"
proof (induction szs arbitrary: c)
  case Nil
  then show ?case by simp
next
  case (Cons sz szs)
  have "[c..<c + sz] @ [c + sz..<c + sz + sum_list szs] = [c..<c + sz + sum_list szs]"
    by (metis le_add1 upt_add_eq_append)
  with Cons show ?case by (simp add: add.assoc)
qed

lemma sum_list_fold_sizes:
  assumes "0 < k"
  shows "sum_list (fold_sizes k n) = n"
proof -
  have "sum_list (fold_sizes k n) = (\<Sum>i = 0..<k. n div k + (if i < n mod k then 1 else 0))"
    by (simp add: fold_sizes_def interv_sum_list_conv_sum_set_nat)
  also have "\<dots> = k * (n div k) + (\<Sum>i = 0..<k. if i < n mod k then 1 else 0)"
    by (simp add: sum.distrib)
  also have "(\<Sum>i = 0..<k. if i < n mod k then 1 else 0::nat) = card {i \<in> {0..<k}. i < n mod k}"
    by (simp add: sum.If_cases Int_def)
  also have "{i \<in> {0..<k}. i < n mod k} = {0..<n mod k}"
    using assms by (auto intro: less_trans [OF _ mod_less_divisor])
  finally show ?thesis by simp
qed

lemma test_folds_nonempty:
  "\<forall>sz\<in>set szs. 0 < sz \<Longrightarrow> \<forall>t\<in>set (test_folds c szs). t \<noteq> []"
  by (induction szs arbitrary: c) auto

lemma fold_sizes_positive: "0 < k \<Longrightarrow> k \<le> n \<Longrightarrow> \<forall>sz\<in>set (fold_sizes k n). 0 < sz"
  by (auto simp: fold_sizes_def div_greater_zero_iff)

lemma KFold_split_Inr:
  assumes "0 < k" and "k \<le> n"
  shows "\<exists>folds. KFold_split k n = Inr folds \<and> length folds = k \<and>
           concat (map snd folds) = [0..<n] \<and>
           (\<forall>f\<in>set folds. snd f \<noteq> [] \<and> fst f = filter (\<lambda>i. i \<notin> set (snd f)) [0..<n])"
proof -
  let ?tests = "test_folds 0 (fold_sizes k n)"
  let ?folds = "map (\<lambda>test. (filter (\<lambda>i. i \<notin> set test) [0..<n], test)) ?tests"
  have 1: "KFold_split k n = Inr ?folds"
    using assms(2) by (simp add: KFold_split_def)
  have 2: "length ?folds = k"
    by (simp add: length_test_folds length_fold_sizes)
  have "map snd ?folds = ?tests"
    by (simp add: comp_def)
  then have 3: "concat (map snd ?folds) = [0..<n]"
    using concat_test_folds [of 0 "fold_sizes k n"] sum_list_fold_sizes [OF assms(1), of n]
    by simp
  have "\<forall>t\<in>set ?tests. t \<noteq> []"
    using fold_sizes_positive [OF assms] by (rule test_folds_nonempty)
  then have 4: "\<forall>f\<in>set ?folds. snd f \<noteq> [] \<and> fst f = filter (\<lambda>i. i \<notin> set (snd f)) [0..<n]"
    by auto
  from 1 2 3 4 show ?thesis by blast
qed

lemma fold_scores_Nil [simp]: "fold_scores T s n [] = []"
  by (simp add: fold_scores_def map_filter_simps)

lemma fold_scores_Cons:
  "fold_scores T s n (idx # folds) =
     (case fold_outcome T s n idx of Inl e \<Rightarrow> [] | Inr v \<Rightarrow> [v]) @ fold_scores T s n folds"
  by (simp add: fold_scores_def map_filter_simps split: sum.splits)

lemma cv_fold_valid:
  assumes "valid_fold s idx"
  shows "\<exists>hm. cv_fold T s n (scores, m0) idx =
           Inr (scores @ (case fold_outcome T s n idx of Inl e \<Rightarrow> [] | Inr v \<Rightarrow> [v]), Some hm) \<and>
           n_components hm = n"
  using assms
  by (auto simp: cv_fold_def fold_outcome_def valid_fold_def combine_sequences_def fit_def
      new_GaussianHMM_def split: sum.splits)

lemma cv_folds_valid:
  assumes "\<forall>idx\<in>set folds. valid_fold s idx"
  shows "\<exists>hm. cv_folds T s n (scores, m0) folds = Inr (scores @ fold_scores T s n folds, hm) \<and>
           (folds \<noteq> [] \<longrightarrow> (\<exists>m. hm = Some m \<and> n_components m = n))"
  using assms
proof (induction folds arbitrary: scores m0)
  case Nil
  then show ?case by simp
next
  case (Cons idx folds)
  from Cons.prems have v: "valid_fold s idx" and rest: "\<forall>idx\<in>set folds. valid_fold s idx"
    by simp_all
  let ?new = "case fold_outcome T s n idx of Inl e \<Rightarrow> [] | Inr v \<Rightarrow> [v]"
  from cv_fold_valid [OF v, of T n scores m0] obtain hm where
    hm: "cv_fold T s n (scores, m0) idx = Inr (scores @ ?new, Some hm)" "n_components hm = n"
    by blast
  from Cons.IH [OF rest, of "scores @ ?new" "Some hm"] obtain hm' where
    hm': "cv_folds T s n (scores @ ?new, Some hm) folds =
            Inr ((scores @ ?new) @ fold_scores T s n folds, hm')"
      "folds \<noteq> [] \<longrightarrow> (\<exists>m. hm' = Some m \<and> n_components m = n)"
    by blast
  have "\<exists>m. hm' = Some m \<and> n_components m = n"
  proof (cases folds)
    case Nil
    with hm' hm(2) show ?thesis by auto
  next
    case (Cons a list)
    with hm'(2) show ?thesis by simp
  qed
  with hm hm'(1) show ?case
    by (simp add: fold_scores_Cons)
qed

lemma KFold_split_valid:
  assumes "KFold_split (n_split s) (length (sequences s)) = Inr folds"
  shows "\<forall>idx\<in>set folds. valid_fold s idx" and "folds \<noteq> []"
proof -
  let ?n = "length (sequences s)" and ?k = "n_split s"
  have k: "0 < ?k" by (simp add: n_split_def)
  from assms have le: "?k \<le> ?n"
    by (simp add: KFold_split_def split: if_splits)
  from KFold_split_Inr [OF k le] assms have
    len: "length folds = ?k" and cc: "concat (map snd folds) = [0..<?n]"
    and tr: "\<forall>f\<in>set folds. snd f \<noteq> [] \<and> fst f = filter (\<lambda>i. i \<notin> set (snd f)) [0..<?n]"
    by auto
  from len k show "folds \<noteq> []" by auto
  show "\<forall>idx\<in>set folds. valid_fold s idx"
  proof
    fix idx assume idx: "idx \<in> set folds"
    then have "set (snd idx) \<subseteq> set (concat (map snd folds))" by auto
    then have "\<forall>i\<in>set (snd idx). i < ?n" unfolding cc by auto
    moreover have "\<forall>i\<in>set (fst idx). i < ?n" using tr idx by auto
    ultimately show "valid_fold s idx"
      by (simp add: valid_fold_def list_all_iff)
  qed
qed

lemma avg_score_folds:
  assumes "KFold_split (n_split s) (length (sequences s)) = Inr folds"
  shows "\<exists>m. avg_score T s n =
           Inr (if fold_scores T s n folds \<noteq> [] then np_mean (fold_scores T s n folds) else NInf,
                Some m) \<and> n_components m = n"
proof -
  from cv_folds_valid [OF KFold_split_valid(1) [OF assms], of T n "[]" None]
    KFold_split_valid(2) [OF assms]
  obtain m where "cv_folds T s n ([], None) folds = Inr (fold_scores T s n folds, Some m)"
    "n_components m = n"
    by auto
  with assms show ?thesis by (simp add: avg_score_def)
qed







lemma KFold_split_3_3: "KFold_split 3 3 = Inr [([Suc 0, 2], [0]), ([0, 2], [Suc 0]), ([0, Suc 0], [2])]"
  by code_simp

lemma upto_2_2: "[2..2::int] = [2]"
  by (simp add: upto.simps)

lemma cv_loop_raises:
  "\<forall>n\<in>set ns. avg_score T s n = Inl e \<Longrightarrow> ns \<noteq> [] \<Longrightarrow>
     cv_loop T s model lowest ns = Inl e"
  by (cases ns) auto

lemma cv_loop_returns:
  "\<forall>n\<in>set ns. \<exists>r. avg_score T s n = Inr r \<Longrightarrow> \<exists>m. cv_loop T s model lowest ns = Inr m"
proof (induction ns arbitrary: model lowest)
  case Nil
  then show ?case by simp
next
  case (Cons a ns)
  then obtain sc hm where "avg_score T s a = Inr (sc, hm)" by fastforce
  with Cons show ?case by simp
qed

lemma init_Inr:
  assumes "init all_word_sequences all_word_Xlengths word nc mn mx seed v = Inr s"
  shows "hwords s = all_word_Xlengths \<and> this_word s = word \<and>
         map_of (hwords s) (this_word s) = Some (X s, lengths s) \<and>
         map_of all_word_sequences word = Some (sequences s)"
  using assms by (auto simp: init_def split: option.splits)

lemma cv_folds_append:
  "cv_folds T s n acc (pre @ post) =
     (case cv_folds T s n acc pre of Inl e \<Rightarrow> Inl e | Inr acc' \<Rightarrow> cv_folds T s n acc' post)"
  by (induction pre arbitrary: acc) (auto split: sum.splits)

subsection \<open>SelectorBIC: the empty candidate range\<close>

text \<open>
  C9. When \<^verbatim>\<open>min_n_components > max_n_components\<close> the loop of \<^verbatim>\<open>SelectorBIC.select\<close>
  has no candidate, \<^verbatim>\<open>return model\<close> reads a local that was never bound, and the
  handler returns \<^verbatim>\<open>base_model(n_constant)\<close>: the value is exactly what the Constant
  strategy returns on the same selector, and the selector is left as it was.
\<close>

theorem select_BIC_empty_range:
  "max_n_components s < min_n_components s \<Longrightarrow> select_BIC T s = (s, select_Constant T s)"
  by (simp add: select_BIC_def select_Constant_def)

theorem select_BIC_empty_range_witness:
  "max_n_components (demo_selector [[1, 2], [3]] [] 3 4 2)
     < min_n_components (demo_selector [[1, 2], [3]] [] 3 4 2) \<and>
   snd (select_BIC (demo_trainer (\<lambda>n d. False) (\<lambda>p d. Fin 0)) (demo_selector [[1, 2], [3]] [] 3 4 2))
     = Some \<lparr>n_components = 3, hmm_random_state = 14, hmm_verbose = False, params = Some 3\<rparr>"
  using select_BIC_empty_range [of "demo_selector [[1, 2], [3]] [] 3 4 2"
      "demo_trainer (\<lambda>n d. False) (\<lambda>p d. Fin 0)"]
  by (simp add: demo_selector_def demo_trainer_def select_Constant_def base_model_def fit_def
      new_GaussianHMM_def)

subsection \<open>SelectorBIC: the score of one candidate\<close>

text \<open>
  C3. For a candidate \<open>n\<close> whose fit succeeds (\<^verbatim>\<open>base_model(n)\<close> is a model) and whose
  model scores the word's combined sequences with the log-likelihood \<open>L\<close>,
  \<^verbatim>\<open>get_model_score\<close> returns exactly \<open>-2 L + (n\<^sup>2 + 2 n D - 1) ln N\<close>, where \<open>D\<close> is
  the model's \<^verbatim>\<open>n_features\<close> and \<open>N\<close> is the number of utterance-sequences of the word,
  not the number of frames. (\<open>N\<close> is at least 1: \<^verbatim>\<open>math.log(0)\<close> raises.)
\<close>

theorem get_model_score_formula:
  assumes "sequences s \<noteq> []"
    and "base_model T s n = Some model"
    and "score T model (concat (sequences s), map length (sequences s)) = Inr (Fin L)"
  shows "\<exists>D. n_features T model = Inr D \<and>
           get_model_score T s n =
             Inr (Fin (- 2 * L + real_of_int (n\<^sup>2 + 2 * n * D - 1) * ln (real (length (sequences s)))))"
proof -
  from assms(2) obtain p where p: "params model = Some p"
    by (auto dest: base_model_Some)
  then have D: "n_features T model = Inr (features T p)"
    by (simp add: n_features_def)
  from assms(1) have lg: "math_log (length (sequences s)) = Inr (Fin (ln (real (length (sequences s)))))"
    by (simp add: math_log_def)
  show ?thesis
    using assms(2,3) D lg by (simp add: get_model_score_def combine_all)
qed

text \<open>
  Two utterances with three frames in all, one feature, two states and the
  log-likelihood \<open>-5\<close>: the score is \<open>10 + 7 ln 2\<close>, with the 2 of the two utterances.
\<close>

theorem get_model_score_formula_witness:
  "get_model_score (demo_trainer (\<lambda>n d. False) (\<lambda>p d. Fin (- 5)))
     (demo_selector [[1, 2], [3]] [] 3 2 3) 2 = Inr (Fin (10 + 7 * ln 2))"
  using get_model_score_formula [of "demo_selector [[1, 2], [3]] [] 3 2 3"
      "demo_trainer (\<lambda>n d. False) (\<lambda>p d. Fin (- 5))" 2
      "\<lparr>n_components = 2, hmm_random_state = 14, hmm_verbose = False, params = Some 2\<rparr>" "- 5"]
  by (simp add: demo_selector_def demo_trainer_def base_model_def fit_def new_GaussianHMM_def
      score_def n_features_def)

subsection \<open>SelectorBIC: a candidate that fails\<close>

text \<open>
  C1 on a concrete run. The class selects the model with the lowest BIC score, and a
  failure of one candidate is to be absorbed in the loop, the search going on with the next
  candidate. With the candidates 2 and 3, where candidate 2 is fitted and scored and the
  fit of candidate 3 raises, the code does otherwise: the \<^verbatim>\<open>try\<close> is around the whole
  loop (\<^verbatim>\<open>SelectorDIC\<close> and \<^verbatim>\<open>SelectorCV\<close> have it inside), so the exception of
  candidate 3 leaves the loop, the model kept for candidate 2 is dropped, and the result is
  the Constant strategy's result (the model with \<^verbatim>\<open>n_constant = 5\<close> states) although
  one candidate did not fail.
\<close>

theorem select_BIC_continue_counterexample:
  "get_model_score (demo_trainer (\<lambda>n d. n = 3) (\<lambda>p d. Fin (- 1)))
     (demo_selector [[5, 2], [3]] [] 5 2 3) 2 = Inr (Fin (2 + 7 * ln 2)) \<and>
   select_BIC (demo_trainer (\<lambda>n d. n = 3) (\<lambda>p d. Fin (- 1))) (demo_selector [[5, 2], [3]] [] 5 2 3)
     = (demo_selector [[5, 2], [3]] [] 5 2 3,
        select_Constant (demo_trainer (\<lambda>n d. n = 3) (\<lambda>p d. Fin (- 1)))
          (demo_selector [[5, 2], [3]] [] 5 2 3)) \<and>
   select_Constant (demo_trainer (\<lambda>n d. n = 3) (\<lambda>p d. Fin (- 1)))
          (demo_selector [[5, 2], [3]] [] 5 2 3)
     = Some \<lparr>n_components = 5, hmm_random_state = 14, hmm_verbose = False, params = Some 5\<rparr>"
  (is "get_model_score ?T ?s 2 = _ \<and> _ \<and> _")
proof -
  have c: "consistent ?s"
    by (simp add: consistent_def demo_selector_def)
  have len: "length (sequences ?s) = 2" and range: "min_n_components ?s = 2" "max_n_components ?s = 3"
    and nc: "n_constant ?s = 5"
    by (simp_all add: demo_selector_def)
  have bm: "\<And>n. base_model ?T ?s n =
      (if n = 3 then None
       else Some \<lparr>n_components = n, hmm_random_state = 14, hmm_verbose = False, params = Some n\<rparr>)"
    by (simp add: base_model_def fit_def new_GaussianHMM_def demo_trainer_def demo_selector_def)
  have g2: "get_model_score ?T ?s 2 = Inr (Fin (2 + 7 * ln 2))"
    unfolding get_model_score_def combine_all bm
    by (simp add: score_def n_features_def math_log_def len demo_trainer_def)
  have g3: "get_model_score ?T ?s 3 = Inl AttributeError"
    by (simp add: get_model_score_def combine_all bm)
  have "bic_loop ?T ?s PInf None [2, 3] = (?s, Inl AttributeError)"
    by (simp add: g2 g3 combine_all consistent_update [OF c])
  then have "select_BIC ?T ?s = (?s, select_Constant ?T ?s)"
    by (simp add: select_BIC_def select_Constant_def range upto_2_3)
  moreover have "select_Constant ?T ?s =
      Some \<lparr>n_components = 5, hmm_random_state = 14, hmm_verbose = False, params = Some 5\<rparr>"
    by (simp add: select_Constant_def bm nc)
  ultimately show ?thesis using g2 by simp
qed

text \<open>
  The same behaviour of the code on every consistent selector: when \<^verbatim>\<open>get_model_score\<close>
  raises for some candidate of the range, the value returned is the Constant strategy's
  result, whatever the other candidates gave. (A score that is \<^verbatim>\<open>nan\<close> raises nothing
  and does not end the search.)
\<close>

theorem select_BIC_candidate_failure:
  assumes "consistent s"
    and "min_n_components s \<le> n" and "n \<le> max_n_components s"
    and "get_model_score T s n = Inl e"
  shows "select_BIC T s = (s, select_Constant T s)"
proof -
  from assms(2,3) have "n \<in> set [min_n_components s..max_n_components s]" by simp
  from bic_loop_failure [OF assms(1) this assms(4)]
  obtain e' where "bic_loop T s PInf None [min_n_components s..max_n_components s] = (s, Inl e')"
    by blast
  then show ?thesis by (simp add: select_BIC_def select_Constant_def)
qed

theorem select_BIC_candidate_failure_witness:
  "select_BIC (demo_trainer (\<lambda>n d. n = 4) (\<lambda>p d. Fin (- 1))) (demo_selector [[5, 2], [3]] [] 6 2 4)
     = (demo_selector [[5, 2], [3]] [] 6 2 4,
        Some \<lparr>n_components = 6, hmm_random_state = 14, hmm_verbose = False, params = Some 6\<rparr>)"
  (is "select_BIC ?T ?s = _")
proof -
  have c: "consistent ?s"
    by (simp add: consistent_def demo_selector_def)
  have range: "min_n_components ?s \<le> 4" "4 \<le> max_n_components ?s"
    by (simp_all add: demo_selector_def)
  have bm: "\<And>n. base_model ?T ?s n =
      (if n = 4 then None
       else Some \<lparr>n_components = n, hmm_random_state = 14, hmm_verbose = False, params = Some n\<rparr>)"
    by (simp add: base_model_def fit_def new_GaussianHMM_def demo_trainer_def demo_selector_def)
  have g4: "get_model_score ?T ?s 4 = Inl AttributeError"
    by (simp add: get_model_score_def combine_all bm)
  have "select_Constant ?T ?s =
      Some \<lparr>n_components = 6, hmm_random_state = 14, hmm_verbose = False, params = Some 6\<rparr>"
    by (simp add: select_Constant_def bm) (simp add: demo_selector_def)
  with select_BIC_candidate_failure [OF c range g4] show ?thesis by simp
qed

subsection \<open>SelectorBIC: the model returned\<close>

text \<open>
  C5 on a concrete run. When at least one candidate succeeds, the model returned is to be
  the one of the candidate with the lowest BIC. With the candidates 2, 3 and 4, where the
  fit of candidate 2 raises, the code never tries candidates 3 and 4: candidate 3 has a
  score, and still the model returned has the 7 states of \<^verbatim>\<open>n_constant\<close>, which is no
  candidate of the range.
\<close>

theorem select_BIC_one_success_counterexample:
  "get_model_score (demo_trainer (\<lambda>n d. n = 2) (\<lambda>p d. Fin (- 1)))
     (demo_selector [[5, 2], [3]] [] 7 2 4) 3 = Inr (Fin (2 + 14 * ln 2)) \<and>
   snd (select_BIC (demo_trainer (\<lambda>n d. n = 2) (\<lambda>p d. Fin (- 1)))
     (demo_selector [[5, 2], [3]] [] 7 2 4))
     = Some \<lparr>n_components = 7, hmm_random_state = 14, hmm_verbose = False, params = Some 7\<rparr>"
  (is "get_model_score ?T ?s 3 = _ \<and> _")
proof -
  have len: "length (sequences ?s) = 2" and range: "min_n_components ?s = 2" "max_n_components ?s = 4"
    and nc: "n_constant ?s = 7"
    by (simp_all add: demo_selector_def)
  have bm: "\<And>n. base_model ?T ?s n =
      (if n = 2 then None
       else Some \<lparr>n_components = n, hmm_random_state = 14, hmm_verbose = False, params = Some n\<rparr>)"
    by (simp add: base_model_def fit_def new_GaussianHMM_def demo_trainer_def demo_selector_def)
  have g3: "get_model_score ?T ?s 3 = Inr (Fin (2 + 14 * ln 2))"
    unfolding get_model_score_def combine_all bm
    by (simp add: score_def n_features_def math_log_def len demo_trainer_def)
  have g2: "get_model_score ?T ?s 2 = Inl AttributeError"
    by (simp add: get_model_score_def combine_all bm)
  have "bic_loop ?T ?s PInf None [2, 3, 4] = (?s, Inl AttributeError)"
    by (simp add: g2)
  then have "snd (select_BIC ?T ?s) = base_model ?T ?s 7"
    by (simp add: select_BIC_def range upto_2_4 nc)
  with g3 show ?thesis by (simp add: bm)
qed

text \<open>
  Where no candidate fails the search does what it is meant to do. On a consistent
  selector with a candidate range that is not empty, when every candidate from
  \<^verbatim>\<open>min_n_components\<close> to \<^verbatim>\<open>max_n_components\<close> is fitted and has a finite BIC \<open>b n\<close>,
  \<^verbatim>\<open>SelectorBIC.select\<close> returns a fitted model whose state count \<open>k\<close> is in the range
  and minimises BIC over the range (the first such candidate, since only a strictly lower
  score replaces the best), and BIC computed again from the returned model's
  log-likelihood and state count is \<open>b k\<close>.
\<close>

theorem select_BIC_minimises:
  assumes "consistent s"
    and "min_n_components s \<le> max_n_components s"
    and "\<forall>n\<in>{min_n_components s..max_n_components s}. get_model_score T s n = Inr (Fin (b n))"
  shows "\<exists>k m. min_n_components s \<le> k \<and> k \<le> max_n_components s \<and>
           select_BIC T s = (s, Some m) \<and> n_components m = k \<and>
           (\<forall>n\<in>{min_n_components s..max_n_components s}. b k \<le> b n) \<and>
           (\<forall>n\<in>{min_n_components s..<k}. b k < b n) \<and>
           recomputed_BIC T s m = Inr (Fin (b k))"
proof -
  let ?ns = "[min_n_components s..max_n_components s]"
  have scored: "\<forall>n\<in>set ?ns. get_model_score T s n = Inr (Fin (b n))"
    using assms(3) by simp
  have "\<exists>n\<in>set ?ns. flt (Fin (b n)) PInf"
    using assms(2) by (intro bexI [of _ "min_n_components s"]) simp_all
  with bic_loop_all_scored [OF assms(1) scored, of PInf None]
  obtain k pre post where k: "?ns = pre @ k # post"
    "\<forall>n\<in>set pre. b k < b n" "\<forall>n\<in>set post. b k \<le> b n"
    "bic_loop T s PInf None ?ns = (s, Inr (base_model T s k))"
    by auto
  have kin: "k \<in> set ?ns" by (subst k(1)) simp
  then have range: "min_n_components s \<le> k" "k \<le> max_n_components s" by simp_all
  from scored kin have "get_model_score T s k = Inr (Fin (b k))" by blast
  then obtain m where m: "base_model T s k = Some m" "n_components m = k"
    "recomputed_BIC T s m = Inr (Fin (b k))"
    by (auto dest: get_model_score_Inr)
  have sel: "select_BIC T s = (s, Some m)"
    using k(4) m(1) by (simp add: select_BIC_def)
  have all: "\<forall>n\<in>{min_n_components s..max_n_components s}. b k \<le> b n"
  proof
    fix n assume "n \<in> {min_n_components s..max_n_components s}"
    then have "n \<in> set (pre @ k # post)" using k(1) by (metis set_upto)
    then show "b k \<le> b n" using k(2,3) by (auto intro: less_imp_le)
  qed
  have sorted_ns: "sorted ?ns" "distinct ?ns" by simp_all
  have first: "\<forall>n\<in>{min_n_components s..<k}. b k < b n"
  proof
    fix n assume n: "n \<in> {min_n_components s..<k}"
    then have "n \<in> set (pre @ k # post)" using k(1) range by (metis atLeastLessThan_iff atLeastAtMost_iff set_upto less_imp_le order_trans)
    moreover have "n \<notin> set (k # post)"
    proof
      assume "n \<in> set (k # post)"
      moreover have "sorted (k # post)" using sorted_ns(1) unfolding k(1) by (simp add: sorted_append)
      ultimately have "k \<le> n" by auto
      with n show False by simp
    qed
    ultimately have "n \<in> set pre" by simp
    with k(2) show "b k < b n" by blast
  qed
  from range sel m(2,3) all first show ?thesis by blast
qed

theorem select_BIC_minimises_witness:
  "map_option n_components
     (snd (select_BIC (demo_trainer (\<lambda>n d. False) (\<lambda>p d. Fin (if p = 3 then - 10 else - 100)))
        (demo_selector [[5, 2], [3], [4, 4], [6]] [] 7 2 4))) = Some 3"
  (is "map_option n_components (snd (select_BIC ?T ?s)) = _")
proof -
  let ?b = "\<lambda>n::int. (if n = 3 then 20 else 200) + real_of_int (n\<^sup>2 + 2 * n - 1) * ln 4"
  have c: "consistent ?s"
    by (simp add: consistent_def demo_selector_def)
  have len: "length (sequences ?s) = 4" and range: "min_n_components ?s = 2" "max_n_components ?s = 4"
    by (simp_all add: demo_selector_def)
  have bm: "\<And>n. base_model ?T ?s n =
      Some \<lparr>n_components = n, hmm_random_state = 14, hmm_verbose = False, params = Some n\<rparr>"
    by (simp add: base_model_def fit_def new_GaussianHMM_def demo_trainer_def demo_selector_def)
  have g: "\<And>n. get_model_score ?T ?s n = Inr (Fin (?b n))"
    unfolding get_model_score_def combine_all bm
    by (simp add: score_def n_features_def math_log_def len demo_trainer_def)
  have scored: "\<forall>n\<in>{min_n_components ?s..max_n_components ?s}. get_model_score ?T ?s n = Inr (Fin (?b n))"
    using g by blast
  have le: "min_n_components ?s \<le> max_n_components ?s" by (simp add: range)
  from select_BIC_minimises [OF c le scored]
  obtain k m where k: "2 \<le> k" "k \<le> 4" "select_BIC ?T ?s = (?s, Some m)" "n_components m = k"
    "\<forall>n\<in>{2..4}. ?b k \<le> ?b n"
    unfolding range by blast
  have pos: "0 < ln (4::real)" by simp
  have up: "ln (4::real) \<le> 3" using ln_le_minus_one [of "4::real"] by simp
  have b3: "?b k \<le> ?b 3" using k(5) [rule_format, of 3] by simp
  from k(1,2) have "k = 2 \<or> k = 3 \<or> k = 4" by auto
  then have "k = 3"
  proof (elim disjE)
    assume "k = 2" with b3 up show ?thesis by simp
  next
    assume "k = 3" then show ?thesis .
  next
    assume "k = 4" with b3 pos show ?thesis by simp
  qed
  with k(3,4) show ?thesis by simp
qed

subsection \<open>SelectorDIC: the criterion\<close>

text \<open>
  C4. For a candidate \<open>n\<close> whose fit succeeds, in a flat index with distinct words that
  holds the selector's own data under its word and at least one other word, the value of
  \<^verbatim>\<open>dic\<close> is the log-likelihood \<open>logL\<close> of the word's own data under the fitted model
  minus the mean of the log-likelihoods \<open>scs\<close> which the same model gives to the flat data
  of every other word. With exactly two words in the index there is one other score
  \<open>scoreB\<close> and the value is \<open>logL - scoreB\<close>.
\<close>

theorem dic_try_value:
  assumes "distinct (map fst (hwords s))"
    and "map_of (hwords s) (this_word s) = Some (X s, lengths s)"
    and "other_words s \<noteq> []"
    and "fit T (new_GaussianHMM n (random_state s) (verbose s)) (X s, lengths s) = Inr hmm"
    and "score T hmm (X s, lengths s) = Inr logL"
    and "map (\<lambda>wx. score T hmm (snd wx)) (other_words s) = map Inr scs"
  shows "dic_try T s n = Inr (fsub logL (np_mean scs), hmm) \<and>
         (length (hwords s) = 2 \<longrightarrow>
            (\<exists>scoreB. scs = [scoreB] \<and> dic_try T s n = Inr (fsub logL scoreB, hmm)))"
proof -
  have mem: "this_word s \<in> fst ` set (hwords s)"
    using assms(2) by (metis domI dom_map_of_conv_image_fst)
  have len: "Suc (length (other_words s)) = length (hwords s)"
    unfolding other_words_def using assms(1) mem by (rule length_others)
  have lscs: "length scs = length (other_words s)"
    using assms(6) by (metis length_map)
  with assms(3) have ne: "scs \<noteq> []" by auto
  have sum: "others_sum T hmm (this_word s) (Fin 0) (hwords s) = Inr (fsum scs)"
    unfolding fsum_def using assms(6) unfolding other_words_def by (rule others_sum_scores)
  have d: "int (length (hwords s)) - 1 = int (length scs)"
    using len lscs by simp
  have "truediv (fsum scs) (int (length (hwords s)) - 1) = Inr (np_mean scs)"
    unfolding d using ne by (simp add: truediv_def np_mean_def)
  with assms(4,5) sum have main: "dic_try T s n = Inr (fsub logL (np_mean scs), hmm)"
    by (simp add: dic_try_def)
  have "length (hwords s) = 2 \<longrightarrow> (\<exists>scoreB. scs = [scoreB])"
    using len lscs by (cases scs) auto
  with main show ?thesis by (auto simp: np_mean_single)
qed

text \<open>
  With the log-likelihood \<open>-(number of frames)\<close>: own data \<open>-3\<close>; two other words with
  \<open>-2\<close> and \<open>-6\<close> give \<open>-3 - (-4) = 1\<close>; one other word with \<open>-2\<close> gives \<open>-1\<close>.
\<close>

theorem dic_try_value_witness:
  "dic_try (demo_trainer (\<lambda>n d. False) (\<lambda>p d. Fin (- real (length (fst d)))))
     (demo_selector [[5, 2], [3]] [(''BOOK'', ([7, 7], [2])), (''CHAIR'', ([4, 4, 4, 4, 4, 4], [6]))] 3 2 3) 2
     = Inr (Fin 1, \<lparr>n_components = 2, hmm_random_state = 14, hmm_verbose = False, params = Some 2\<rparr>) \<and>
   dic_try (demo_trainer (\<lambda>n d. False) (\<lambda>p d. Fin (- real (length (fst d)))))
     (demo_selector [[5, 2], [3]] [(''BOOK'', ([7, 7], [2]))] 3 2 3) 2
     = Inr (Fin (- 1), \<lparr>n_components = 2, hmm_random_state = 14, hmm_verbose = False, params = Some 2\<rparr>)"
  (is "dic_try ?T ?s3 2 = Inr (_, ?hmm) \<and> dic_try ?T ?s2 2 = _")
proof -
  have three: "dic_try ?T ?s3 2 = Inr (fsub (Fin (- 3)) (np_mean [Fin (- 2), Fin (- 6)]), ?hmm)"
    using dic_try_value [of ?s3 ?T 2 ?hmm "Fin (- 3)" "[Fin (- 2), Fin (- 6)]"]
    by (simp add: demo_selector_def demo_trainer_def other_words_def fit_def score_def
        new_GaussianHMM_def)
  have two: "dic_try ?T ?s2 2 = Inr (fsub (Fin (- 3)) (Fin (- 2)), ?hmm)"
    using dic_try_value [of ?s2 ?T 2 ?hmm "Fin (- 3)" "[Fin (- 2)]"]
    by (simp add: demo_selector_def demo_trainer_def other_words_def fit_def score_def
        new_GaussianHMM_def np_mean_single)
  from three two show ?thesis
    by (simp add: fsub_def np_mean_def fsum_def)
qed

subsection \<open>SelectorDIC: an index with the target word only\<close>

text \<open>
  C8. When the flat index holds the target word only, every candidate fails inside the
  \<^verbatim>\<open>try\<close>: where the fit and the score succeed, \<^verbatim>\<open>sc\<close> is still the integer 0 and
  \<^verbatim>\<open>sc / (len(self.hwords) - 1)\<close> divides by zero; the bare \<^verbatim>\<open>except\<close> skips the
  candidate, and \<^verbatim>\<open>SelectorDIC.select\<close> returns \<^verbatim>\<open>None\<close> without raising.
\<close>

theorem select_DIC_single_word:
  assumes "map fst (hwords s) = [this_word s]"
  shows "(\<forall>n. \<exists>e. dic_try T s n = Inl e) \<and>
         (\<forall>n hmm logL.
            fit T (new_GaussianHMM n (random_state s) (verbose s)) (X s, lengths s) = Inr hmm \<longrightarrow>
            score T hmm (X s, lengths s) = Inr logL \<longrightarrow>
            dic_try T s n = Inl ZeroDivisionError) \<and>
         select_DIC T s = None"
proof -
  have len: "length (hwords s) = 1"
    using assms by (metis length_map length_Cons list.size(3) One_nat_def)
  have sum: "\<And>hmm. others_sum T hmm (this_word s) (Fin 0) (hwords s) = Inr (Fin 0)"
    using assms by (rule others_sum_only_this)
  have fails: "\<exists>e. dic_try T s n = Inl e" for n
    by (simp add: dic_try_def sum len truediv_def split: sum.splits)
  have zero: "dic_try T s n = Inl ZeroDivisionError"
    if "fit T (new_GaussianHMM n (random_state s) (verbose s)) (X s, lengths s) = Inr hmm"
      and "score T hmm (X s, lengths s) = Inr logL" for n hmm logL
    using that by (simp add: dic_try_def sum len truediv_def)
  have "select_DIC T s = None"
    unfolding select_DIC_def by (rule dic_loop_all_fail) (simp add: fails)
  with fails zero show ?thesis by blast
qed

theorem select_DIC_single_word_witness:
  "select_DIC (demo_trainer (\<lambda>n d. False) (\<lambda>p d. Fin 0)) (demo_selector [[5, 2], [3]] [] 3 2 4) = None \<and>
   dic_try (demo_trainer (\<lambda>n d. False) (\<lambda>p d. Fin 0)) (demo_selector [[5, 2], [3]] [] 3 2 4) 2
     = Inl ZeroDivisionError"
  using select_DIC_single_word [of "demo_selector [[5, 2], [3]] [] 3 2 4"
      "demo_trainer (\<lambda>n d. False) (\<lambda>p d. Fin 0)"]
  by (simp add: demo_selector_def demo_trainer_def fit_def score_def new_GaussianHMM_def)

subsection \<open>SelectorCV: the number of folds\<close>

text \<open>
  C6, as the claim states it, fails for a word with a single utterance: the fold count is
  2, \<^verbatim>\<open>KFold(n_splits=2).split\<close> refuses one sample with ValueError, and \<^verbatim>\<open>avg_score\<close>
  raises instead of partitioning the sequences into two folds.
\<close>

theorem avg_score_one_sequence_counterexample:
  "n_split (demo_selector [[5, 2]] [] 3 2 3) = 2 \<and>
   KFold_split (n_split (demo_selector [[5, 2]] [] 3 2 3))
     (length (sequences (demo_selector [[5, 2]] [] 3 2 3))) = Inl ValueError \<and>
   avg_score (demo_trainer (\<lambda>n d. False) (\<lambda>p d. Fin 0)) (demo_selector [[5, 2]] [] 3 2 3) 2
     = Inl ValueError"
proof -
  have len: "length (sequences (demo_selector [[5, 2]] [] 3 2 3)) = 1"
    by (simp add: demo_selector_def)
  then show ?thesis
    by (simp add: avg_score_def n_split_def KFold_split_def)
qed

text \<open>
  C6, amended. \<^verbatim>\<open>SelectorCV\<close> asks for \<open>k\<close> folds with \<open>k = 3\<close> when the word has at
  least 3 utterance-sequences and \<open>k = 2\<close> otherwise; \<open>k\<close> is never below 2 and never above
  3; and for a word with at least 2 utterance-sequences the split gives exactly \<open>k\<close>
  folds, whose test sets are not empty and together are the indices of the sequences, each
  training set being the indices outside its test set.
\<close>

theorem n_split_folds:
  "n_split s = (if 3 \<le> length (sequences s) then 3 else 2) \<and>
   2 \<le> n_split s \<and> n_split s \<le> 3 \<and>
   (2 \<le> length (sequences s) \<longrightarrow>
      (\<exists>folds. KFold_split (n_split s) (length (sequences s)) = Inr folds \<and>
         length folds = n_split s \<and>
         concat (map snd folds) = [0..<length (sequences s)] \<and>
         (\<forall>f\<in>set folds. snd f \<noteq> [] \<and>
            fst f = filter (\<lambda>i. i \<notin> set (snd f)) [0..<length (sequences s)])))"
proof -
  have "0 < n_split s" by (simp add: n_split_def)
  moreover have "2 \<le> length (sequences s) \<Longrightarrow> n_split s \<le> length (sequences s)"
    by (simp add: n_split_def)
  ultimately have "2 \<le> length (sequences s) \<longrightarrow>
      (\<exists>folds. KFold_split (n_split s) (length (sequences s)) = Inr folds \<and>
         length folds = n_split s \<and>
         concat (map snd folds) = [0..<length (sequences s)] \<and>
         (\<forall>f\<in>set folds. snd f \<noteq> [] \<and>
            fst f = filter (\<lambda>i. i \<notin> set (snd f)) [0..<length (sequences s)]))"
    using KFold_split_Inr [of "n_split s" "length (sequences s)"] by blast
  moreover have "n_split s = (if 3 \<le> length (sequences s) then 3 else 2)"
    "2 \<le> n_split s" "n_split s \<le> 3"
    by (simp_all add: n_split_def)
  ultimately show ?thesis by blast
qed

theorem n_split_folds_witness:
  "2 \<le> length (sequences (demo_selector [[5, 2], [3], [4, 4], [6]] [] 3 2 4)) \<and>
   n_split (demo_selector [[5, 2], [3], [4, 4], [6]] [] 3 2 4) = 3 \<and>
   (case KFold_split (n_split (demo_selector [[5, 2], [3], [4, 4], [6]] [] 3 2 4))
           (length (sequences (demo_selector [[5, 2], [3], [4, 4], [6]] [] 3 2 4))) of
      Inl e \<Rightarrow> False
    | Inr folds \<Rightarrow> length folds = 3 \<and> concat (map snd folds) = [0, 1, 2, 3])"
proof -
  have len: "length (sequences (demo_selector [[5, 2], [3], [4, 4], [6]] [] 3 2 4)) = 4"
    by (simp add: demo_selector_def)
  have "[0..<4] = [0, 1, 2, 3::nat]" by code_simp
  with n_split_folds [of "demo_selector [[5, 2], [3], [4, 4], [6]] [] 3 2 4"] len
  show ?thesis by auto
qed

subsection \<open>SelectorCV: folds that fail\<close>



subsection \<open>SelectorCV: the model returned for the winning candidate\<close>

text \<open>
  What \<^verbatim>\<open>avg_score\<close> returns as the model of a candidate: the object of the last fold,
  fitted on the training sequences of that fold when its \<^verbatim>\<open>fit\<close> returned, and without
  learnt parameters when its \<^verbatim>\<open>fit\<close> raised. It is never fitted on all sequences of the
  word.
\<close>

lemma avg_score_model:
  assumes "KFold_split (n_split s) (length (sequences s)) = Inr folds"
    and "combine_sequences (fst (last folds)) (sequences s) = Inr train"
  shows "\<exists>sc. avg_score T s n =
           Inr (sc, Some (case fit T (new_GaussianHMM n (random_state s) (verbose s)) train of
                            Inl e \<Rightarrow> new_GaussianHMM n (random_state s) (verbose s)
                          | Inr hmm_model \<Rightarrow> hmm_model))"
proof -
  note valid = KFold_split_valid [OF assms(1)]
  from valid(2) have split: "folds = butlast folds @ [last folds]" by simp
  have "\<forall>idx\<in>set (butlast folds). valid_fold s idx"
    using valid(1) by (auto dest: in_set_butlastD)
  from cv_folds_valid [OF this, of T n "[]" None] obtain acc where
    pre: "cv_folds T s n ([], None) (butlast folds) = Inr acc"
    by blast
  have "valid_fold s (last folds)" using valid by simp
  then obtain test where test: "combine_sequences (snd (last folds)) (sequences s) = Inr test"
    by (auto simp: valid_fold_def combine_sequences_def)
  let ?new = "new_GaussianHMM n (random_state s) (verbose s) :: 'b GaussianHMM"
  have "\<exists>scores. cv_fold T s n acc (last folds) =
      Inr (scores, Some (case fit T ?new train of Inl e \<Rightarrow> ?new | Inr hmm_model \<Rightarrow> hmm_model))"
    using assms(2) test by (auto simp: cv_fold_def split: sum.splits)
  then obtain scores where last: "cv_fold T s n acc (last folds) =
      Inr (scores, Some (case fit T ?new train of Inl e \<Rightarrow> ?new | Inr hmm_model \<Rightarrow> hmm_model))"
    by blast
  have "cv_folds T s n ([], None) (butlast folds @ [last folds]) =
      Inr (scores, Some (case fit T ?new train of Inl e \<Rightarrow> ?new | Inr hmm_model \<Rightarrow> hmm_model))"
    by (simp add: cv_folds_append pre last)
  with split have "cv_folds T s n ([], None) folds =
      Inr (scores, Some (case fit T ?new train of Inl e \<Rightarrow> ?new | Inr hmm_model \<Rightarrow> hmm_model))"
    by simp
  with assms(1) show ?thesis by (simp add: avg_score_def)
qed

text \<open>
  C10 on a concrete run. Three utterances, the single candidate 2, and a trainer that
  raises on the training data \<open>[5, 6]\<close> of the third fold only. The first two folds are
  fitted and scored, so the candidate wins with the average \<open>-1\<close>; the third fold assigns
  a new object to \<^verbatim>\<open>hmm_model\<close> and then its \<^verbatim>\<open>fit\<close> raises. \<^verbatim>\<open>select\<close> returns that
  object, which has no learnt parameters, and not the model of the second fold, the last
  fold that succeeded.
\<close>

theorem select_CV_unfitted_model:
  "select_CV (demo_trainer (\<lambda>n d. fst d = [5, 6]) (\<lambda>p d. Fin (- 1)))
     (demo_selector [[5], [6], [7]] [] 3 2 2)
     = Inr (Some \<lparr>n_components = 2, hmm_random_state = 14, hmm_verbose = False, params = None\<rparr>) \<and>
   fold_outcome (demo_trainer (\<lambda>n d. fst d = [5, 6]) (\<lambda>p d. Fin (- 1)))
     (demo_selector [[5], [6], [7]] [] 3 2 2) 2 ([0, 2], [1]) = Inr (Fin (- 1))"
  (is "select_CV ?T ?s = _ \<and> _")
proof -
  have len: "length (sequences ?s) = 3"
    and seqs: "sequences ?s = [[5], [6], [7]]" and seed: "random_state ?s = 14" "verbose ?s = False"
    and range: "min_n_components ?s = 2" "max_n_components ?s = 2"
    by (simp_all add: demo_selector_def)
  have k: "n_split ?s = 3" by (simp add: n_split_def len)
  have f1: "\<And>acc. cv_fold ?T ?s 2 acc ([Suc 0, 2], [0]) =
      Inr (fst acc @ [Fin (- 1)],
           Some \<lparr>n_components = 2, hmm_random_state = 14, hmm_verbose = False, params = Some 2\<rparr>)"
    by (simp add: cv_fold_def combine_sequences_def seqs seed fit_def score_def new_GaussianHMM_def
        demo_trainer_def)
  have f2: "\<And>acc. cv_fold ?T ?s 2 acc ([0, 2], [Suc 0]) =
      Inr (fst acc @ [Fin (- 1)],
           Some \<lparr>n_components = 2, hmm_random_state = 14, hmm_verbose = False, params = Some 2\<rparr>)"
    by (simp add: cv_fold_def combine_sequences_def seqs seed fit_def score_def new_GaussianHMM_def
        demo_trainer_def)
  have f3: "\<And>acc. cv_fold ?T ?s 2 acc ([0, Suc 0], [2]) =
      Inr (fst acc,
           Some \<lparr>n_components = 2, hmm_random_state = 14, hmm_verbose = False, params = None\<rparr>)"
    by (simp add: cv_fold_def combine_sequences_def seqs seed fit_def score_def new_GaussianHMM_def
        demo_trainer_def)
  have avg: "avg_score ?T ?s 2 =
      Inr (Fin (- 1),
           Some \<lparr>n_components = 2, hmm_random_state = 14, hmm_verbose = False, params = None\<rparr>)"
    by (simp add: avg_score_def k len KFold_split_3_3 f1 f2 f3 np_mean_def fsum_def)
  have sel: "select_CV ?T ?s =
      Inr (Some \<lparr>n_components = 2, hmm_random_state = 14, hmm_verbose = False, params = None\<rparr>)"
    by (simp add: select_CV_def range upto_2_2 avg fgt_def)
  have "fold_outcome ?T ?s 2 ([0, 2], [1]) = Inr (Fin (- 1))"
    by (simp add: fold_outcome_def combine_sequences_def seqs seed fit_def score_def
        new_GaussianHMM_def demo_trainer_def)
  with sel show ?thesis by blast
qed

subsection \<open>SelectorCV: an exception that reaches the caller\<close>

text \<open>
  \<^verbatim>\<open>avg_score\<close> calls \<^verbatim>\<open>split\<close> outside every \<^verbatim>\<open>try\<close>. \<^verbatim>\<open>SelectorCV.select\<close> raises
  exactly when the word has fewer than two utterance-sequences and the candidate range
  is not empty.
\<close>

lemma select_CV_raises_iff:
  "(\<exists>e. select_CV T s = Inl e) \<longleftrightarrow>
     (length (sequences s) < 2 \<and> min_n_components s \<le> max_n_components s)"
proof (cases "length (sequences s) < 2")
  case True
  then have avg: "avg_score T s n = Inl ValueError" for n
    by (simp add: avg_score_def n_split_def KFold_split_def)
  show ?thesis
  proof (cases "min_n_components s \<le> max_n_components s")
    case le: True
    then have "[min_n_components s..max_n_components s] \<noteq> []" by simp
    with cv_loop_raises [of "[min_n_components s..max_n_components s]" T s ValueError None NInf] avg
    have "select_CV T s = Inl ValueError" by (simp add: select_CV_def)
    with True le show ?thesis by simp
  next
    case False
    then show ?thesis by (simp add: select_CV_def)
  qed
next
  case False
  then have "0 < n_split s" "n_split s \<le> length (sequences s)"
    by (simp_all add: n_split_def)
  from KFold_split_Inr [OF this] obtain folds where
    "KFold_split (n_split s) (length (sequences s)) = Inr folds" by blast
  from avg_score_folds [OF this, of T] have "\<exists>r. avg_score T s n = Inr r" for n by blast
  then have "\<exists>m. select_CV T s = Inr m"
    unfolding select_CV_def by (intro cv_loop_returns) simp
  with False show ?thesis by auto
qed

text \<open>
  C2 on a concrete run. A word with one utterance and the candidates 2 and 3:
  \<^verbatim>\<open>SelectorCV.select\<close> does not return a model or \<^verbatim>\<open>None\<close>, the ValueError of
  \<^verbatim>\<open>KFold.split\<close> reaches the caller.
\<close>

theorem select_CV_one_sequence_raises:
  "select_CV (demo_trainer (\<lambda>n d. False) (\<lambda>p d. Fin 0)) (demo_selector [[5, 2]] [] 3 2 3)
     = Inl ValueError"
  (is "select_CV ?T ?s = _")
proof -
  have len: "length (sequences ?s) = 1"
    and range: "min_n_components ?s = 2" "max_n_components ?s = 3"
    by (simp_all add: demo_selector_def)
  have "avg_score ?T ?s 2 = Inl ValueError"
    by (simp add: avg_score_def n_split_def len KFold_split_def)
  then show ?thesis
    by (simp add: select_CV_def range upto_2_3)
qed

end
